theory Spec2Isabelle
  imports Main "HOL-Library.AList" "HOL-Library.Log_Nat"
begin

section \<open>Python values\<close>

text \<open>
  The values the script handles come from decoded JSON: \<open>None\<close>, booleans, integers,
  strings, lists and dictionaries.  A dictionary is the list of its items (the keys of a
  decoded object are distinct), read with \<open>map_of\<close>.  JSON numbers with a fraction or an
  exponent decode to floats and are not part of this type.  A string is its UTF-8 bytes.
\<close>

datatype json =
  JNull | JBool bool | JNum int | JStr string | JArr "json list" | JObj "(string \<times> json) list"

text \<open>The exceptions that can arise; the three with a message carry it.\<close>

datatype py_error =
  AttributeError | TypeError | ValueError | KeyError | OverflowError | ZeroDivisionError
  | JSONDecodeError | RequestException string | HTTPError string | RuntimeError string

text \<open>Sequencing of steps that may raise: the first exception ends the computation.\<close>

definition on_ok :: "'e + 'a \<Rightarrow> ('a \<Rightarrow> 'e + 'b) \<Rightarrow> 'e + 'b" where
  "on_ok r f = (case r of Inl e \<Rightarrow> Inl e | Inr x \<Rightarrow> f x)"

text \<open>Truth value of an object, as \<open>if x\<close>, \<open>x or y\<close> and \<open>not x\<close> test it.\<close>

fun truthy :: "json \<Rightarrow> bool" where
  "truthy JNull = False"
| "truthy (JBool b) = b"
| "truthy (JNum n) = (n \<noteq> 0)"
| "truthy (JStr s) = (s \<noteq> [])"
| "truthy (JArr xs) = (xs \<noteq> [])"
| "truthy (JObj kvs) = (kvs \<noteq> [])"

text \<open>
  \<open>d.get(k, default)\<close>: only a dictionary has the method, any other value raises
  \<open>AttributeError\<close>.  \<open>d.get(k)\<close> is \<open>py_get d k JNull\<close>.
\<close>

fun py_get :: "json \<Rightarrow> string \<Rightarrow> json \<Rightarrow> py_error + json" where
  "py_get (JObj kvs) k dflt = Inr (case map_of kvs k of Some v \<Rightarrow> v | None \<Rightarrow> dflt)"
| "py_get _ k dflt = Inl AttributeError"

text \<open>\<open>k in d\<close> for a string \<open>k\<close>: key of a dictionary, element of a list, substring of a string.\<close>

fun has_substring :: "string \<Rightarrow> string \<Rightarrow> bool" where
  "has_substring sub [] = (sub = [])"
| "has_substring sub (c # cs) = (take (length sub) (c # cs) = sub \<or> has_substring sub cs)"

fun py_contains :: "string \<Rightarrow> json \<Rightarrow> py_error + bool" where
  "py_contains k (JObj kvs) = Inr (k \<in> set (map fst kvs))"
| "py_contains k (JArr xs) = Inr (JStr k \<in> set xs)"
| "py_contains k (JStr s) = Inr (has_substring k s)"
| "py_contains k _ = Inl TypeError"

text \<open>\<open>d[k]\<close> for a string \<open>k\<close>.\<close>

fun py_getitem :: "json \<Rightarrow> string \<Rightarrow> py_error + json" where
  "py_getitem (JObj kvs) k = (case map_of kvs k of Some v \<Rightarrow> Inr v | None \<Rightarrow> Inl KeyError)"
| "py_getitem _ k = Inl TypeError"

text \<open>\<open>for x in v\<close>: the elements of a list, the keys of a dictionary, the characters of a string.\<close>

fun py_iter :: "json \<Rightarrow> py_error + json list" where
  "py_iter (JArr xs) = Inr xs"
| "py_iter (JObj kvs) = Inr (map (\<lambda>kv. JStr (fst kv)) kvs)"
| "py_iter (JStr s) = Inr (map (\<lambda>c. JStr [c]) s)"
| "py_iter _ = Inl TypeError"

subsection \<open>Decimal text of integers\<close>

definition digit_char :: "nat \<Rightarrow> char" where
  "digit_char d = ''0123456789'' ! d"

fun show_nat :: "nat \<Rightarrow> string" where
  "show_nat n = (if n < 10 then [digit_char n] else show_nat (n div 10) @ [digit_char (n mod 10)])"

declare show_nat.simps [simp del]

definition show_int :: "int \<Rightarrow> string" where
  "show_int i = (if i < 0 then CHR ''-'' # show_nat (nat (- i)) else show_nat (nat i))"

text \<open>
  \<open>int(s)\<close> for a string: surrounding whitespace is dropped, one sign is allowed, and the
  rest must be decimal digits with single underscores between digits.  (ASCII only.)
\<close>

definition is_py_space :: "char \<Rightarrow> bool" where
  "is_py_space c = (of_char c \<in> set [9, 10, 11, 12, 13, 28, 29, 30, 31, 32 :: nat])"

definition is_digit :: "char \<Rightarrow> bool" where
  "is_digit c = (48 \<le> (of_char c :: nat) \<and> (of_char c :: nat) \<le> 57)"

definition digit_val :: "char \<Rightarrow> nat" where
  "digit_val c = of_char c - 48"

definition py_strip :: "string \<Rightarrow> string" where
  "py_strip s = rev (dropWhile is_py_space (rev (dropWhile is_py_space s)))"

fun digits_ok :: "string \<Rightarrow> bool" where
  "digits_ok [] = False"
| "digits_ok [c] = is_digit c"
| "digits_ok (c # d # cs) =
     (is_digit c \<and> (if d = CHR ''_'' then digits_ok cs else digits_ok (d # cs)))"

definition digits_value :: "string \<Rightarrow> nat" where
  "digits_value s = foldl (\<lambda>acc c. if c = CHR ''_'' then acc else 10 * acc + digit_val c) 0 s"

definition int_of_str :: "string \<Rightarrow> int option" where
  "int_of_str s =
     (let t = py_strip s;
          neg = (t \<noteq> [] \<and> hd t = CHR ''-'');
          body = (if t \<noteq> [] \<and> (hd t = CHR ''-'' \<or> hd t = CHR ''+'') then tl t else t)
      in if digits_ok body
         then Some (if neg then - int (digits_value body) else int (digits_value body))
         else None)"

text \<open>\<open>int(x)\<close>: \<open>ValueError\<close> for a string that is no literal, \<open>TypeError\<close> for \<open>None\<close>, lists and dictionaries.\<close>

fun py_int :: "json \<Rightarrow> py_error + int" where
  "py_int (JNum n) = Inr n"
| "py_int (JBool b) = Inr (if b then 1 else 0)"
| "py_int (JStr s) = (case int_of_str s of Some n \<Rightarrow> Inr n | None \<Rightarrow> Inl ValueError)"
| "py_int _ = Inl TypeError"

text \<open>
  \<open>str(x)\<close>, as an f-string applies it.  The text of a list or a dictionary (its \<open>repr\<close>)
  is left to the parameter \<open>rp\<close>.
\<close>

fun py_str :: "(json \<Rightarrow> string) \<Rightarrow> json \<Rightarrow> string" where
  "py_str rp (JStr s) = s"
| "py_str rp JNull = ''None''"
| "py_str rp (JBool b) = (if b then ''True'' else ''False'')"
| "py_str rp (JNum n) = show_int n"
| "py_str rp v = rp v"

subsection \<open>Floats: true division and the \<open>.1f\<close> format\<close>

text \<open>
  A finite binary64 float is a pair \<open>(m, x)\<close> of integers standing for \<open>m * 2 ^ x\<close>.
  \<open>round_half_even a b\<close> is the integer nearest to \<open>a / b\<close> for \<open>b > 0\<close>, ties going to
  the even one.
\<close>

definition round_half_even :: "int \<Rightarrow> int \<Rightarrow> int" where
  "round_half_even a b =
     (let q = a div b; r = a mod b
      in if 2 * r < b then q else if b < 2 * r then q + 1 else if even q then q else q + 1)"

text \<open>For \<open>a, b > 0\<close>: the exponent \<open>e\<close> with \<open>2 ^ e \<le> a / b < 2 ^ (e + 1)\<close>.\<close>

definition floor_log2 :: "int \<Rightarrow> int \<Rightarrow> int" where
  "floor_log2 a b =
     (let e0 = bitlen a - bitlen b
      in if (if 0 \<le> e0 then b * 2 ^ nat e0 \<le> a else b \<le> a * 2 ^ nat (- e0)) then e0 else e0 - 1)"

text \<open>
  \<open>a / b\<close> on integers gives the float nearest to the exact quotient (53 significant
  bits, ties to even, exponents from \<open>-1022\<close>), and raises \<open>OverflowError\<close> when that
  float would be \<open>2 ^ 1024\<close> or more.
\<close>

definition py_truediv :: "int \<Rightarrow> int \<Rightarrow> py_error + int \<times> int" where
  "py_truediv a b =
     (if b = 0 then Inl ZeroDivisionError
      else if a = 0 then Inr (0, 0)
      else
        (let x = max (floor_log2 \<bar>a\<bar> \<bar>b\<bar>) (- 1022) - 52;
             m = (if 0 \<le> x then round_half_even \<bar>a\<bar> (\<bar>b\<bar> * 2 ^ nat x)
                  else round_half_even (\<bar>a\<bar> * 2 ^ nat (- x)) \<bar>b\<bar>)
         in if 0 \<le> x \<and> 2 ^ 1024 \<le> m * 2 ^ nat x then Inl OverflowError
            else Inr (sgn a * sgn b * m, x)))"

text \<open>
  \<open>f"{d:.1f}"\<close>: the float's exact value, rounded to a whole number \<open>t\<close> of tenths (ties
  to even), written as the integer part, a point and one digit.
\<close>

definition tenths :: "int \<times> int \<Rightarrow> int" where
  "tenths d =
     (let m = fst d; x = snd d
      in if 0 \<le> x then 10 * \<bar>m\<bar> * 2 ^ nat x else round_half_even (10 * \<bar>m\<bar>) (2 ^ nat (- x)))"

definition one_decimal :: "int \<Rightarrow> string" where
  "one_decimal t = show_nat (nat (t div 10)) @ ''.'' @ [digit_char (nat (t mod 10))]"

definition format_1f :: "int \<times> int \<Rightarrow> string" where
  "format_1f d = (if fst d < 0 then ''-'' else []) @ one_decimal (tenths d)"

text \<open>\<open>f"{v:,}"\<close>: the decimal digits in groups of three from the right, after the sign.\<close>

fun group3 :: "string \<Rightarrow> string" where
  "group3 (a # b # c # d # rest) = a # b # c # CHR '','' # group3 (d # rest)"
| "group3 ds = ds"

definition format_comma :: "int \<Rightarrow> string" where
  "format_comma v = (if v < 0 then ''-'' else []) @ rev (group3 (rev (show_nat (nat \<bar>v\<bar>))))"

section \<open>The number formatter (\<open>format_views\<close>, lines 44--55)\<close>

text \<open>The two unit suffixes, U+C5B5 (hundred million) and U+B9CC (ten thousand).\<close>

definition eok :: string where
  "eok = [CHR 0xEC, CHR 0x96, CHR 0xB5]"

definition man :: string where
  "man = [CHR 0xEB, CHR 0xA7, CHR 0x8C]"

text \<open>
  The conversion \<open>int(n)\<close> is inside the \<open>try\<close>; the two divisions are not, so their
  \<open>OverflowError\<close> leaves the function.
\<close>

definition format_views :: "(json \<Rightarrow> string) \<Rightarrow> json \<Rightarrow> py_error + string" where
  "format_views rp n =
     (case py_int n of
        Inl e \<Rightarrow> Inr (py_str rp n)
      | Inr v \<Rightarrow>
          if 100000000 \<le> v then on_ok (py_truediv v 100000000) (\<lambda>d. Inr (format_1f d @ eok))
          else if 10000 \<le> v then on_ok (py_truediv v 10000) (\<lambda>d. Inr (format_1f d @ man))
          else Inr (format_comma v))"

section \<open>HTTP requests and responses\<close>

text \<open>
  What \<open>requests.get(url, params=..., timeout=15)\<close> is given and what it gives back.  Of a
  response the script reads \<open>status_code\<close>, \<open>text\<close>, \<open>json()\<close> (\<open>None\<close> here when decoding
  raises) and \<open>ok\<close>.  The call itself may raise instead of returning; the remote service is
  a function from the request to that outcome.
\<close>

record http_request =
  req_url :: string
  req_params :: "(string \<times> string) list"
  req_timeout :: nat

record http_response =
  status_code :: int
  resp_text :: string
  resp_json :: "json option"

text \<open>
  \<open>Response.ok\<close> of the requests library is false exactly when \<open>raise_for_status\<close> would
  raise: for the client and server error codes 400 to 599.
\<close>

definition resp_ok :: "http_response \<Rightarrow> bool" where
  "resp_ok r = (\<not> (400 \<le> status_code r \<and> status_code r < 600))"

text \<open>
  The error body both functions build for a failed response (lines 78--81 and 116--119):
  the decoded body, or the raw text wrapped as \<open>{"error": {"message": text}}\<close> when
  decoding raises.
\<close>

definition error_data :: "http_response \<Rightarrow> json" where
  "error_data r =
     (case resp_json r of
        Some d \<Rightarrow> d
      | None \<Rightarrow> JObj [(''error'', JObj [(''message'', JStr (resp_text r))])])"

section \<open>The trending-videos fetcher (\<open>get_most_popular_videos\<close>, lines 59--89)\<close>

definition videos_request :: "string \<Rightarrow> string \<Rightarrow> int \<Rightarrow> http_request" where
  "videos_request api_key region_code max_results =
     \<lparr>req_url = ''https://www.googleapis.com/youtube/v3/videos'',
      req_params = [(''part'', ''snippet,statistics''), (''chart'', ''mostPopular''),
                    (''regionCode'', region_code), (''maxResults'', show_int max_results),
                    (''key'', api_key)],
      req_timeout = 15\<rparr>"

text \<open>
  The function returns the requests it sent together with its result: the items, or the
  exception that leaves it.  Nothing in it catches an exception of the call or of the
  decoding on the success path.
\<close>

definition get_most_popular_videos ::
  "(json \<Rightarrow> string) \<Rightarrow> (http_request \<Rightarrow> py_error + http_response) \<Rightarrow>
     string \<Rightarrow> string \<Rightarrow> int \<Rightarrow> http_request list \<times> (py_error + json)" where
  "get_most_popular_videos rp http api_key region_code max_results =
     (let req = videos_request api_key region_code max_results
      in ([req],
          case http req of
            Inl e \<Rightarrow> Inl e
          | Inr resp \<Rightarrow>
              if \<not> resp_ok resp then
                Inl (HTTPError (''YouTube API HTTP '' @ show_int (status_code resp) @ '': ''
                                  @ py_str rp (error_data resp)))
              else
                (case resp_json resp of
                   None \<Rightarrow> Inl JSONDecodeError
                 | Some data \<Rightarrow>
                     on_ok (py_contains ''error'' data) (\<lambda>has_error.
                       if has_error then
                         on_ok (py_getitem data ''error'') (\<lambda>err.
                           Inl (RuntimeError (''YouTube API Error: '' @ py_str rp err)))
                       else py_get data ''items'' (JArr [])))))"

section \<open>The subscriber-count batcher (\<open>get_channel_subscribers\<close>, lines 93--135)\<close>

text \<open>
  The result dictionary maps channel ids to counts.  It is a list of items in insertion
  order; storing under a key that is present replaces the value in place.  Lists and
  dictionaries cannot be keys (\<open>TypeError\<close>); \<open>True\<close> and \<open>False\<close> are the keys 1 and 0.
\<close>

fun dict_key :: "json \<Rightarrow> json option" where
  "dict_key (JArr xs) = None"
| "dict_key (JObj kvs) = None"
| "dict_key (JBool b) = Some (JNum (if b then 1 else 0))"
| "dict_key k = Some k"

definition dict_set :: "(json \<times> int) list \<Rightarrow> json \<Rightarrow> int \<Rightarrow> py_error + (json \<times> int) list" where
  "dict_set d k v =
     (case dict_key k of None \<Rightarrow> Inl TypeError | Some k' \<Rightarrow> Inr (AList.update k' v d))"

definition dict_get :: "(json \<times> int) list \<Rightarrow> json \<Rightarrow> py_error + int option" where
  "dict_get d k = (case dict_key k of None \<Rightarrow> Inl TypeError | Some k' \<Rightarrow> Inr (map_of d k'))"

datatype warning = HttpWarning int json | ExceptionWarning py_error

record batcher_state =
  result :: "(json \<times> int) list"
  warnings :: "warning list"
  calls :: "http_request list"

fun join :: "string \<Rightarrow> string list \<Rightarrow> string" where
  "join sep [] = []"
| "join sep [x] = x"
| "join sep (x # y # ys) = x @ sep @ join sep (y # ys)"

definition channels_request :: "string \<Rightarrow> string list \<Rightarrow> http_request" where
  "channels_request api_key batch =
     \<lparr>req_url = ''https://www.googleapis.com/youtube/v3/channels'',
      req_params = [(''part'', ''statistics''), (''id'', join '','' batch), (''key'', api_key)],
      req_timeout = 15\<rparr>"

text \<open>
  Lines 124--131, one channel record.  The three \<open>get\<close> calls can raise (that ends the
  batch); the conversion and the store are inside the inner \<open>try\<close>, whose handler passes.
\<close>

definition process_item :: "(json \<times> int) list \<Rightarrow> json \<Rightarrow> py_error + (json \<times> int) list" where
  "process_item res ch =
     on_ok (py_get ch ''id'' JNull) (\<lambda>cid.
     on_ok (py_get (if truthy ch then ch else JObj []) ''statistics'' (JObj [])) (\<lambda>stats.
     on_ok (py_get stats ''subscriberCount'' JNull) (\<lambda>subs.
       Inr (if truthy cid \<and> subs \<noteq> JNull then
              (case on_ok (py_int subs) (dict_set res cid) of Inl e \<Rightarrow> res | Inr res' \<Rightarrow> res')
            else res))))"

text \<open>
  Lines 123--131, the loop over the records of one response: it stops at the first
  exception and keeps what it has stored so far.
\<close>

fun process_items :: "(json \<times> int) list \<Rightarrow> json list \<Rightarrow> (json \<times> int) list \<times> py_error option" where
  "process_items res [] = (res, None)"
| "process_items res (ch # chs) =
     (case process_item res ch of
        Inl e \<Rightarrow> (res, Some e)
      | Inr res' \<Rightarrow> process_items res' chs)"

text \<open>Lines 106--134, the body of the loop over the batches.\<close>

definition process_batch ::
  "(http_request \<Rightarrow> py_error + http_response) \<Rightarrow> string \<Rightarrow> batcher_state \<Rightarrow> string list \<Rightarrow> batcher_state" where
  "process_batch http api_key st batch =
     (let req = channels_request api_key batch;
          st1 = st\<lparr>calls := calls st @ [req]\<rparr>
      in case http req of
           Inl e \<Rightarrow> st1\<lparr>warnings := warnings st1 @ [ExceptionWarning e]\<rparr>
         | Inr resp \<Rightarrow>
             if \<not> resp_ok resp then
               st1\<lparr>warnings := warnings st1 @ [HttpWarning (status_code resp) (error_data resp)]\<rparr>
             else
               (case resp_json resp of
                  None \<Rightarrow> st1\<lparr>warnings := warnings st1 @ [ExceptionWarning JSONDecodeError]\<rparr>
                | Some data \<Rightarrow>
                    (case on_ok (py_get data ''items'' (JArr [])) py_iter of
                       Inl e \<Rightarrow> st1\<lparr>warnings := warnings st1 @ [ExceptionWarning e]\<rparr>
                     | Inr items \<Rightarrow>
                         (case process_items (result st1) items of
                            (res, None) \<Rightarrow> st1\<lparr>result := res\<rparr>
                          | (res, Some e) \<Rightarrow>
                              st1\<lparr>result := res, warnings := warnings st1 @ [ExceptionWarning e]\<rparr>))))"

text \<open>
  Line 101 keeps the truthy ids, builds a set of them and lists the set.  An entry of
  \<open>channel_ids\<close> is a string or \<open>None\<close>.  The order in which Python lists a set of
  strings depends on their hashes; \<open>set_order\<close> stands for it: given the kept ids in
  input order it returns the list \<open>list({...})\<close> produces.  \<open>lists_set\<close> says what every
  such listing satisfies.
\<close>

definition truthy_ids :: "string option list \<Rightarrow> string list" where
  "truthy_ids channel_ids = filter (\<lambda>s. s \<noteq> []) (List.map_filter (\<lambda>c. c) channel_ids)"

definition lists_set :: "'a list \<Rightarrow> 'a list \<Rightarrow> bool" where
  "lists_set ys xs = (distinct ys \<and> set ys = set xs)"

text \<open>Lines 105--106: \<open>unique_ids[i : i + 50]\<close> for \<open>i\<close> in \<open>range(0, len(unique_ids), 50)\<close>.\<close>

definition batches :: "'a list \<Rightarrow> 'a list list" where
  "batches xs = map (\<lambda>k. take 50 (drop (50 * k) xs)) [0 ..< (length xs + 49) div 50]"

definition get_channel_subscribers ::
  "(string list \<Rightarrow> string list) \<Rightarrow> (http_request \<Rightarrow> py_error + http_response) \<Rightarrow>
     string \<Rightarrow> string option list \<Rightarrow> batcher_state" where
  "get_channel_subscribers set_order http api_key channel_ids =
     (if channel_ids = [] then \<lparr>result = [], warnings = [], calls = []\<rparr>
      else
        (let unique_ids = set_order (truthy_ids channel_ids)
         in foldl (process_batch http api_key) \<lparr>result = [], warnings = [], calls = []\<rparr>
              (batches unique_ids)))"

text \<open>
  Two notions for stating the properties of the batcher: what one batch alone contributes
  (the result of the loop body on the empty dictionary), and when the call for a batch
  counts as failed at the HTTP level (it raises, or the response is not \<open>ok\<close>).
\<close>

definition batch_result ::
  "(http_request \<Rightarrow> py_error + http_response) \<Rightarrow> string \<Rightarrow> string list \<Rightarrow> (json \<times> int) list" where
  "batch_result http api_key batch =
     result (process_batch http api_key \<lparr>result = [], warnings = [], calls = []\<rparr> batch)"

definition call_failed ::
  "(http_request \<Rightarrow> py_error + http_response) \<Rightarrow> string \<Rightarrow> string list \<Rightarrow> bool" where
  "call_failed http api_key batch =
     (case http (channels_request api_key batch) of
        Inl e \<Rightarrow> True
      | Inr resp \<Rightarrow> 400 \<le> status_code resp \<and> status_code resp < 600)"

section \<open>Session state and the login gate (streamlit\_app.py, lines 146--181)\<close>

text \<open>
  The script keeps its login state in Streamlit's session state, a dictionary.  The keys
  the authentication code touches are \<open>authenticated\<close>, \<open>_login_user\<close> and
  \<open>_login_pass\<close>; the region controls use \<open>region_sel\<close> and \<open>region_custom\<close>.
  A key that is absent from the dictionary is \<open>None\<close> in the record.
\<close>

record session_state =
  authenticated :: "bool option"
  login_user :: "string option"
  login_pass :: "string option"
  region_sel :: "string option"
  region_custom :: "string option"

text \<open>Lines 149--150: the flag is created as \<open>False\<close> when the key is missing.\<close>

definition init_authenticated :: "session_state \<Rightarrow> session_state" where
  "init_authenticated st =
     (if authenticated st = None then st\<lparr>authenticated := Some False\<rparr> else st)"

definition is_authenticated :: "session_state \<Rightarrow> bool" where
  "is_authenticated st = (authenticated st = Some True)"

text \<open>
  Lines 152--157, \<open>logout\<close>: the flag is set to \<open>False\<close>, both login fields are popped
  (\<open>pop(key, None)\<close> never raises), and the script is rerun on the returned state.
\<close>

definition logout :: "session_state \<Rightarrow> session_state" where
  "logout st = st\<lparr>authenticated := Some False, login_user := None, login_pass := None\<rparr>"

datatype sidebar_msg = LoginSuccess | LoginError | LoggedInNotice | NoMessage

text \<open>
  Lines 165--171, the body of \<open>if login_btn:\<close>.  \<open>EXPECTED_USER\<close> and
  \<open>EXPECTED_PASS\<close> are the module constants of lines 146--147; a Python string is truthy
  exactly when it is not empty.
\<close>

definition login_btn_handler ::
  "string \<Rightarrow> string \<Rightarrow> string \<Rightarrow> string \<Rightarrow> session_state \<Rightarrow> session_state \<times> sidebar_msg" where
  "login_btn_handler EXPECTED_USER EXPECTED_PASS user pw st =
     (if EXPECTED_USER \<noteq> [] \<and> EXPECTED_PASS \<noteq> [] \<and> user = EXPECTED_USER \<and> pw = EXPECTED_PASS
      then (st\<lparr>authenticated := Some True\<rparr>, LoginSuccess)
      else (st, LoginError))"

text \<open>
  Lines 159--175, the sidebar.  While logged out it shows the two text inputs, whose values
  Streamlit stores under their keys, and the login button; while logged in it shows the
  notice and the logout button (whose callback is \<open>logout\<close>).
\<close>

definition sidebar ::
  "string \<Rightarrow> string \<Rightarrow> string \<Rightarrow> string \<Rightarrow> bool \<Rightarrow> session_state \<Rightarrow> session_state \<times> sidebar_msg" where
  "sidebar EXPECTED_USER EXPECTED_PASS user pw login_btn st =
     (if \<not> is_authenticated st then
        (let st1 = st\<lparr>login_user := Some user, login_pass := Some pw\<rparr>
         in if login_btn then login_btn_handler EXPECTED_USER EXPECTED_PASS user pw st1
            else (st1, NoMessage))
      else (st, LoggedInNotice))"

datatype sidebar_view = LoginForm | LogoutButton

definition sidebar_shows :: "session_state \<Rightarrow> sidebar_view" where
  "sidebar_shows st = (if \<not> is_authenticated st then LoginForm else LogoutButton)"

text \<open>Lines 178--181: the main area stops at the access notice unless the flag is set.\<close>

datatype main_area = AccessRestricted | Content

definition auth_gate :: "session_state \<Rightarrow> main_area" where
  "auth_gate st = (if \<not> is_authenticated st then AccessRestricted else Content)"

text \<open>
  A sequence of login submissions, each a (username, password) pair sent with the login
  button pressed, starting from a given state.
\<close>

fun submit_all :: "string \<Rightarrow> string \<Rightarrow> (string \<times> string) list \<Rightarrow> session_state \<Rightarrow> session_state" where
  "submit_all EXPECTED_USER EXPECTED_PASS [] st = st"
| "submit_all EXPECTED_USER EXPECTED_PASS ((user, pw) # rest) st =
     submit_all EXPECTED_USER EXPECTED_PASS rest
       (fst (sidebar EXPECTED_USER EXPECTED_PASS user pw True (init_authenticated st)))"

section \<open>Row rendering (lines 265--316)\<close>

text \<open>The fixed texts of a row, as UTF-8 bytes: the four icons, the unit after the
  subscriber count, the separator of the metrics line and the two default labels.\<close>

definition eye :: string where
  "eye = [CHR 0xF0, CHR 0x9F, CHR 0x91, CHR 0x81]"

definition thumbs_up :: string where
  "thumbs_up = [CHR 0xF0, CHR 0x9F, CHR 0x91, CHR 0x8D]"

definition speech :: string where
  "speech = [CHR 0xF0, CHR 0x9F, CHR 0x92, CHR 0xAC]"

definition bust :: string where
  "bust = [CHR 0xF0, CHR 0x9F, CHR 0x91, CHR 0xA4]"

definition myeong :: string where
  "myeong = [CHR 0xEB, CHR 0xAA, CHR 0x85]"

definition middot :: string where
  "middot = [CHR '' '', CHR 0xC2, CHR 0xB7, CHR '' '']"

definition no_title :: string where
  "no_title = [CHR ''('', CHR 0xEC, CHR 0xA0, CHR 0x9C, CHR 0xEB, CHR 0xAA, CHR 0xA9, CHR '' '',
     CHR 0xEC, CHR 0x97, CHR 0x86, CHR 0xEC, CHR 0x9D, CHR 0x8C, CHR '')'']"

definition no_channel :: string where
  "no_channel = [CHR ''('', CHR 0xEC, CHR 0xB1, CHR 0x84, CHR 0xEB, CHR 0x84, CHR 0x90, CHR '' '',
     CHR 0xEC, CHR 0xA0, CHR 0x95, CHR 0xEB, CHR 0xB3, CHR 0xB4, CHR '' '',
     CHR 0xEC, CHR 0x97, CHR 0x86, CHR 0xEC, CHR 0x9D, CHR 0x8C, CHR '')'']"

text \<open>
  Lines 273--279: \<open>d.get(k1) or d.get(k2) or ... or {}\<close>, the first value that is truthy.
\<close>

fun get_first :: "json \<Rightarrow> string list \<Rightarrow> py_error + json" where
  "get_first d [] = Inr (JObj [])"
| "get_first d (k # ks) =
     on_ok (py_get d k JNull) (\<lambda>v. if truthy v then Inr v else get_first d ks)"

text \<open>What the left column shows: the image at a URL, or the notice that there is none.\<close>

datatype thumb_cell = Image json | NoThumbnail

text \<open>Lines 306--311: a metric is appended only when its value is not \<open>None\<close>.\<close>

definition metric_part :: "(json \<Rightarrow> string) \<Rightarrow> string \<Rightarrow> string \<Rightarrow> json \<Rightarrow> py_error + string list" where
  "metric_part rp icon unit v =
     (if v \<noteq> JNull then on_ok (format_views rp v) (\<lambda>t. Inr [icon @ '' '' @ t @ unit])
      else Inr [])"

record row_view =
  thumb :: thumb_cell
  title_md :: string
  parts :: "string list"
  compact_line :: string

text \<open>
  One pass of the loop body for the item at rank \<open>i\<close>, with the subscriber map built
  before.  Any \<open>get\<close> on a value that is not a dictionary ends the render with its exception.
\<close>

definition render_row ::
  "(json \<Rightarrow> string) \<Rightarrow> (json \<times> int) list \<Rightarrow> nat \<Rightarrow> json \<Rightarrow> py_error + row_view" where
  "render_row rp subs_map i item =
     on_ok (py_get item ''snippet'' (JObj [])) (\<lambda>snippet.
     on_ok (py_get item ''statistics'' (JObj [])) (\<lambda>stats.
     on_ok (py_get snippet ''title'' (JStr no_title)) (\<lambda>title.
     on_ok (py_get snippet ''channelTitle'' (JStr no_channel)) (\<lambda>channel.
     on_ok (py_get snippet ''channelId'' JNull) (\<lambda>channel_id.
     on_ok (py_get snippet ''thumbnails'' (JObj [])) (\<lambda>thumbs.
     on_ok (get_first thumbs [''medium'', ''high'', ''standard'', ''default'']) (\<lambda>thumb.
     on_ok (py_get thumb ''url'' JNull) (\<lambda>thumb_url.
     on_ok (py_get stats ''viewCount'' (JStr ''0'')) (\<lambda>views.
     on_ok (py_get stats ''likeCount'' JNull) (\<lambda>likes.
     on_ok (py_get stats ''commentCount'' JNull) (\<lambda>comments.
     on_ok (dict_get subs_map channel_id) (\<lambda>subs.
     on_ok (py_get item ''id'' JNull) (\<lambda>video_id.
     on_ok (format_views rp views) (\<lambda>views_text.
     on_ok (metric_part rp thumbs_up [] likes) (\<lambda>likes_part.
     on_ok (metric_part rp speech [] comments) (\<lambda>comments_part.
     on_ok (metric_part rp bust myeong (case subs of None \<Rightarrow> JNull | Some n \<Rightarrow> JNum n))
       (\<lambda>subs_part.
       (let ps = [py_str rp channel, eye @ '' '' @ views_text]
                   @ likes_part @ comments_part @ subs_part
        in Inr \<lparr>thumb = (if truthy thumb_url then Image thumb_url else NoThumbnail),
                title_md =
                  (if truthy video_id
                   then ''**'' @ show_nat i @ ''. ['' @ py_str rp title
                          @ ''](https://www.youtube.com/watch?v='' @ py_str rp video_id @ '')**''
                   else ''**'' @ show_nat i @ ''. '' @ py_str rp title @ ''**''),
                parts = ps,
                compact_line = join middot ps\<rparr>))))))))))))))))))"

text \<open>
  For stating what the thumbnail cell shows.  \<open>size_entries\<close> lists what the four sizes
  hold, in the order the code asks for them (\<open>None\<close> for a size that is missing), and
  \<open>usable_url\<close> is the URL an entry carries, if it carries a truthy one.
\<close>

definition size_entries :: "(string \<times> json) list \<Rightarrow> json list" where
  "size_entries ths =
     map (\<lambda>k. case map_of ths k of Some v \<Rightarrow> v | None \<Rightarrow> JNull)
       [''medium'', ''high'', ''standard'', ''default'']"

fun usable_url :: "json \<Rightarrow> json option" where
  "usable_url (JObj kvs) =
     (case map_of kvs ''url'' of Some u \<Rightarrow> if truthy u then Some u else None | None \<Rightarrow> None)"
| "usable_url _ = None"

text \<open>
  The selection as the specification words it, "first available of medium, high, standard,
  default": the URL of the first size, in that order, that has a usable URL.
\<close>

definition spec_first_available :: "(string \<times> json) list \<Rightarrow> json option" where
  "spec_first_available ths =
     (case List.map_filter usable_url (size_entries ths) of [] \<Rightarrow> None | u # _ \<Rightarrow> Some u)"

section \<open>Properties of the login gate\<close>

lemma sidebar_authenticated_iff:
  "is_authenticated (fst (sidebar eu ep user pw btn st)) \<longleftrightarrow>
     is_authenticated st \<or> (btn \<and> eu \<noteq> [] \<and> ep \<noteq> [] \<and> user = eu \<and> pw = ep)"
  by (simp add: sidebar_def login_btn_handler_def is_authenticated_def Let_def)

lemma init_authenticated_keeps: "is_authenticated (init_authenticated st) = is_authenticated st"
  by (simp add: init_authenticated_def is_authenticated_def)

lemma submit_all_authenticated:
  "is_authenticated (submit_all eu ep subs st) \<longleftrightarrow>
     is_authenticated st \<or> (eu \<noteq> [] \<and> ep \<noteq> [] \<and> (eu, ep) \<in> set subs)"
proof (induction subs arbitrary: st)
  case Nil
  show ?case by simp
next
  case (Cons p subs)
  obtain user pw where p: "p = (user, pw)" by (cases p)
  show ?case
    unfolding p
    by (simp add: Cons.IH sidebar_authenticated_iff init_authenticated_keeps) blast
qed

text \<open>
  Claim C1.  From a logged-out state the flag becomes true only when the login button was
  pressed and the submitted username and password both equal the configured values, which
  must both be non-empty.  When either configured value is empty, no sequence of
  submissions ever sets the flag.  A submission that does not match leaves the state the
  handler received unchanged, so the session stays logged out.
\<close>

theorem login_only_on_exact_match:
  "(\<not> is_authenticated st \<longrightarrow>
      (is_authenticated (fst (sidebar eu ep user pw btn st)) \<longleftrightarrow>
         btn \<and> eu \<noteq> [] \<and> ep \<noteq> [] \<and> user = eu \<and> pw = ep))
   \<and> (\<not> is_authenticated st \<and> (eu = [] \<or> ep = []) \<longrightarrow>
        \<not> is_authenticated (submit_all eu ep subs st))
   \<and> (\<not> (user = eu \<and> pw = ep) \<longrightarrow>
        login_btn_handler eu ep user pw st = (st, LoginError)
        \<and> (\<not> is_authenticated st \<longrightarrow>
             \<not> is_authenticated (fst (sidebar eu ep user pw btn st))))"
proof (intro conjI impI)
  assume "\<not> is_authenticated st"
  then show "is_authenticated (fst (sidebar eu ep user pw btn st)) \<longleftrightarrow>
      btn \<and> eu \<noteq> [] \<and> ep \<noteq> [] \<and> user = eu \<and> pw = ep"
    by (simp add: sidebar_authenticated_iff)
next
  assume "\<not> is_authenticated st \<and> (eu = [] \<or> ep = [])"
  then show "\<not> is_authenticated (submit_all eu ep subs st)"
    by (auto simp: submit_all_authenticated)
next
  assume "\<not> (user = eu \<and> pw = ep)"
  then show "login_btn_handler eu ep user pw st = (st, LoginError)"
    by (auto simp: login_btn_handler_def)
next
  assume "\<not> (user = eu \<and> pw = ep)" and "\<not> is_authenticated st"
  then show "\<not> is_authenticated (fst (sidebar eu ep user pw btn st))"
    by (auto simp: sidebar_authenticated_iff)
qed

theorem login_only_on_exact_match_witness:
  "\<not> is_authenticated \<lparr>authenticated = Some False, login_user = None, login_pass = None,
       region_sel = None, region_custom = None\<rparr>
   \<and> is_authenticated (fst (sidebar ''admin'' ''s3cret'' ''admin'' ''s3cret'' True
       \<lparr>authenticated = Some False, login_user = None, login_pass = None,
        region_sel = None, region_custom = None\<rparr>))
   \<and> \<not> is_authenticated (submit_all [] ''s3cret'' [([], ''s3cret''), (''admin'', ''s3cret'')]
       \<lparr>authenticated = Some False, login_user = None, login_pass = None,
        region_sel = None, region_custom = None\<rparr>)
   \<and> login_btn_handler ''admin'' ''s3cret'' ''admin'' ''guess''
       \<lparr>authenticated = Some False, login_user = None, login_pass = None,
        region_sel = None, region_custom = None\<rparr>
     = (\<lparr>authenticated = Some False, login_user = None, login_pass = None,
         region_sel = None, region_custom = None\<rparr>, LoginError)
   \<and> \<not> is_authenticated (fst (sidebar ''admin'' ''s3cret'' ''admin'' ''guess'' True
       \<lparr>authenticated = Some False, login_user = None, login_pass = None,
        region_sel = None, region_custom = None\<rparr>))"
  using login_only_on_exact_match [of
      "\<lparr>authenticated = Some False, login_user = None, login_pass = None,
        region_sel = None, region_custom = None\<rparr>"
      "''admin''" "''s3cret''" "''admin''" "''s3cret''" True "[]"]
    login_only_on_exact_match [of
      "\<lparr>authenticated = Some False, login_user = None, login_pass = None,
        region_sel = None, region_custom = None\<rparr>"
      "[]" "''s3cret''" "''admin''" "''guess''" True "[([], ''s3cret''), (''admin'', ''s3cret'')]"]
    login_only_on_exact_match [of
      "\<lparr>authenticated = Some False, login_user = None, login_pass = None,
        region_sel = None, region_custom = None\<rparr>"
      "''admin''" "''s3cret''" "''admin''" "''guess''" True "[]"]
  by (simp add: is_authenticated_def)

text \<open>
  Claim C8.  Logging out sets the flag to false and removes both stored login fields; the
  region fields are left as they were.  On the render that follows, the sidebar shows the
  login form and the main area stops at the access notice instead of the content.
\<close>

theorem logout_clears_login_state:
  "authenticated (logout st) = Some False
   \<and> login_user (logout st) = None
   \<and> login_pass (logout st) = None
   \<and> region_sel (logout st) = region_sel st
   \<and> region_custom (logout st) = region_custom st
   \<and> sidebar_shows (init_authenticated (logout st)) = LoginForm
   \<and> auth_gate (fst (sidebar eu ep user pw False (init_authenticated (logout st))))
       = AccessRestricted"
  by (simp add: logout_def init_authenticated_def sidebar_shows_def auth_gate_def
      sidebar_def is_authenticated_def Let_def)

section \<open>Properties of the trending-videos fetcher\<close>

text \<open>
  Claim C5 (as amended).  The fetcher sends exactly one request, whatever happens (no retry).
  A response with a status from 400 to 599 raises the HTTP error whose message carries the
  status code and the decoded body, or the raw text wrapped in an error object when the
  body does not decode.  A 2xx response whose body is an object with an \<open>error\<close> field
  raises the runtime error carrying that field.  An exception of the call itself leaves the
  function unchanged.
\<close>

theorem fetch_failure_signalling:
  "fst (get_most_popular_videos rp http api_key region_code max_results)
     = [videos_request api_key region_code max_results]
   \<and> (http (videos_request api_key region_code max_results) = Inr resp
        \<and> 400 \<le> status_code resp \<and> status_code resp < 600 \<longrightarrow>
      snd (get_most_popular_videos rp http api_key region_code max_results)
        = Inl (HTTPError (''YouTube API HTTP '' @ show_int (status_code resp) @ '': '' @
            py_str rp (case resp_json resp of
                         Some d \<Rightarrow> d
                       | None \<Rightarrow> JObj [(''error'', JObj [(''message'', JStr (resp_text resp))])]))))
   \<and> (http (videos_request api_key region_code max_results) = Inr resp
        \<and> 200 \<le> status_code resp \<and> status_code resp < 300
        \<and> resp_json resp = Some (JObj kvs) \<and> map_of kvs ''error'' = Some err \<longrightarrow>
      snd (get_most_popular_videos rp http api_key region_code max_results)
        = Inl (RuntimeError (''YouTube API Error: '' @ py_str rp err)))
   \<and> (http (videos_request api_key region_code max_results) = Inl e \<longrightarrow>
      snd (get_most_popular_videos rp http api_key region_code max_results) = Inl e)"
proof (intro conjI impI)
  show "fst (get_most_popular_videos rp http api_key region_code max_results)
     = [videos_request api_key region_code max_results]"
    by (simp add: get_most_popular_videos_def Let_def)
next
  assume "http (videos_request api_key region_code max_results) = Inr resp
        \<and> 400 \<le> status_code resp \<and> status_code resp < 600"
  then show "snd (get_most_popular_videos rp http api_key region_code max_results)
        = Inl (HTTPError (''YouTube API HTTP '' @ show_int (status_code resp) @ '': '' @
            py_str rp (case resp_json resp of
                         Some d \<Rightarrow> d
                       | None \<Rightarrow> JObj [(''error'', JObj [(''message'', JStr (resp_text resp))])])))"
    by (simp add: get_most_popular_videos_def Let_def resp_ok_def error_data_def)
next
  assume a: "http (videos_request api_key region_code max_results) = Inr resp
        \<and> 200 \<le> status_code resp \<and> status_code resp < 300
        \<and> resp_json resp = Some (JObj kvs) \<and> map_of kvs ''error'' = Some err"
  then have "''error'' \<in> fst ` set kvs"
    by (metis domI dom_map_of_conv_image_fst)
  with a show "snd (get_most_popular_videos rp http api_key region_code max_results)
        = Inl (RuntimeError (''YouTube API Error: '' @ py_str rp err))"
    by (simp add: get_most_popular_videos_def Let_def resp_ok_def on_ok_def)
next
  assume "http (videos_request api_key region_code max_results) = Inl e"
  then show "snd (get_most_popular_videos rp http api_key region_code max_results) = Inl e"
    by (simp add: get_most_popular_videos_def Let_def)
qed

theorem fetch_failure_signalling_witness:
  "fst (get_most_popular_videos (\<lambda>_. ''{...}'')
          (\<lambda>_. Inr \<lparr>status_code = 403, resp_text = ''Forbidden'', resp_json = None\<rparr>)
          ''key'' ''US'' 10)
     = [videos_request ''key'' ''US'' 10]
   \<and> snd (get_most_popular_videos (\<lambda>_. ''{...}'')
          (\<lambda>_. Inr \<lparr>status_code = 403, resp_text = ''Forbidden'', resp_json = None\<rparr>)
          ''key'' ''US'' 10)
     = Inl (HTTPError ''YouTube API HTTP 403: {...}'')
   \<and> snd (get_most_popular_videos (\<lambda>_. ''{...}'')
          (\<lambda>_. Inr \<lparr>status_code = 200, resp_text = [],
                    resp_json = Some (JObj [(''error'', JStr ''quotaExceeded'')])\<rparr>)
          ''key'' ''US'' 10)
     = Inl (RuntimeError ''YouTube API Error: quotaExceeded'')
   \<and> snd (get_most_popular_videos (\<lambda>_. ''{...}'')
          (\<lambda>_. Inl (RequestException ''timed out'')) ''key'' ''US'' 10)
     = Inl (RequestException ''timed out'')"
  using fetch_failure_signalling [of "\<lambda>_. ''{...}''"
      "\<lambda>_. Inr \<lparr>status_code = 403, resp_text = ''Forbidden'', resp_json = None\<rparr>"
      "''key''" "''US''" 10
      "\<lparr>status_code = 403, resp_text = ''Forbidden'', resp_json = None\<rparr>"]
    fetch_failure_signalling [of "\<lambda>_. ''{...}''"
      "\<lambda>_. Inr \<lparr>status_code = 200, resp_text = [],
                resp_json = Some (JObj [(''error'', JStr ''quotaExceeded'')])\<rparr>"
      "''key''" "''US''" 10
      "\<lparr>status_code = 200, resp_text = [],
        resp_json = Some (JObj [(''error'', JStr ''quotaExceeded'')])\<rparr>"
      "[(''error'', JStr ''quotaExceeded'')]" "JStr ''quotaExceeded''"]
    fetch_failure_signalling [of "\<lambda>_. ''{...}''"
      "\<lambda>_. Inl (RequestException ''timed out'')" "''key''" "''US''" 10 _ _ _
      "RequestException ''timed out''"]
  by (simp add: show_int_def show_nat.simps digit_char_def)

text \<open>
  The claim as stated speaks of every non-2xx status.  A response with status 304 is not
  2xx, yet \<open>ok\<close> holds for it and the fetcher returns its items without raising.
\<close>

theorem non_2xx_status_not_raised:
  "\<not> (200 \<le> status_code \<lparr>status_code = 304, resp_text = [],
                          resp_json = Some (JObj [(''items'', JArr [])])\<rparr>
       \<and> status_code \<lparr>status_code = 304, resp_text = [],
                       resp_json = Some (JObj [(''items'', JArr [])])\<rparr> < 300)
   \<and> snd (get_most_popular_videos (\<lambda>_. [])
          (\<lambda>_. Inr \<lparr>status_code = 304, resp_text = [],
                    resp_json = Some (JObj [(''items'', JArr [])])\<rparr>)
          ''key'' ''KR'' 30)
     = Inr (JArr [])"
  by (simp add: get_most_popular_videos_def Let_def resp_ok_def on_ok_def)




section \<open>Properties of the subscriber-count batcher\<close>

subsection \<open>One record, one response, one batch\<close>

lemma process_item_cases:
  "(\<exists>e. process_item res ch = Inl e \<and> process_item [] ch = Inl e)
   \<or> (process_item res ch = Inr res \<and> process_item [] ch = Inr [])
   \<or> (\<exists>k n. process_item res ch = Inr (AList.update k n res) \<and> process_item [] ch = Inr [(k, n)])"
proof (cases ch)
  case (JObj kvs)
  show ?thesis
    unfolding JObj process_item_def
    by (cases "map_of kvs ''statistics''")
       (auto simp: on_ok_def dict_set_def split: sum.splits option.splits json.splits if_splits)
qed (simp_all add: process_item_def on_ok_def)

lemma process_items_shift:
  "map_of (fst (process_items res items)) = map_of res ++ map_of (fst (process_items [] items))
   \<and> snd (process_items res items) = snd (process_items [] items)"
proof (induction items arbitrary: res)
  case Nil
  show ?case by simp
next
  case (Cons ch items)
  from process_item_cases [of res ch]
  consider (err) e where "process_item res ch = Inl e" "process_item [] ch = Inl e"
    | (skip) "process_item res ch = Inr res" "process_item [] ch = Inr []"
    | (store) k n where "process_item res ch = Inr (AList.update k n res)"
        "process_item [] ch = Inr [(k, n)]"
    by blast
  then show ?case
  proof cases
    case err
    then show ?thesis by simp
  next
    case skip
    then show ?thesis using Cons.IH [of res] by simp
  next
    case store
    let ?M0 = "map_of (fst (process_items [] items))"
    have 1: "map_of (fst (process_items (AList.update k n res) items))
        = (map_of res)(k \<mapsto> n) ++ ?M0"
    proof -
      have "map_of (fst (process_items (AList.update k n res) items))
          = map_of (AList.update k n res) ++ ?M0"
        using Cons.IH [of "AList.update k n res"] by (rule conjunct1)
      then show ?thesis by (simp only: update_conv')
    qed
    have 2: "map_of (fst (process_items [(k, n)] items)) = [k \<mapsto> n] ++ ?M0"
    proof -
      have "map_of (fst (process_items [(k, n)] items)) = map_of [(k, n)] ++ ?M0"
        using Cons.IH [of "[(k, n)]"] by (rule conjunct1)
      then show ?thesis by (simp only: map_of.simps fst_conv snd_conv)
    qed
    have 3: "snd (process_items (AList.update k n res) items)
        = snd (process_items [(k, n)] items)"
      using Cons.IH [of "AList.update k n res"] Cons.IH [of "[(k, n)]"] by simp
    have 4: "(map_of res)(k \<mapsto> n) ++ ?M0 = map_of res ++ ([k \<mapsto> n] ++ ?M0)"
      by (simp add: fun_eq_iff map_add_def split: option.splits)
    have a: "process_items res (ch # items) = process_items (AList.update k n res) items"
      using store(1) by simp
    have b: "process_items [] (ch # items) = process_items [(k, n)] items"
      using store(2) by simp
    show ?thesis
      unfolding a b by (simp only: 1 2 3 4)
  qed
qed

lemma process_batch_calls:
  "calls (process_batch http k st b) = calls st @ [channels_request k b]"
  by (simp add: process_batch_def Let_def split: sum.splits option.splits prod.splits)

lemma process_items_pair:
  assumes "process_items res items = (r, e)" and "process_items [] items = (r0, e0)"
  shows "map_of r = map_of res ++ map_of r0" and "e = e0"
  using process_items_shift [of res items] assms by simp_all

lemma process_batch_result_merge:
  "map_of (result (process_batch http k st b))
     = map_of (result st) ++ map_of (batch_result http k b)"
proof (cases "http (channels_request k b)")
  case (Inl e)
  then show ?thesis by (simp add: batch_result_def process_batch_def Let_def)
next
  case (Inr resp)
  show ?thesis
  proof (cases "resp_ok resp")
    case False
    with Inr show ?thesis by (simp add: batch_result_def process_batch_def Let_def)
  next
    case True
    show ?thesis
    proof (cases "resp_json resp")
      case None
      with Inr True show ?thesis by (simp add: batch_result_def process_batch_def Let_def)
    next
      case (Some data)
      show ?thesis
      proof (cases "on_ok (py_get data ''items'' (JArr [])) py_iter")
        case (Inl e)
        with Inr True Some show ?thesis
          by (simp add: batch_result_def process_batch_def Let_def)
      next
        case items: (Inr items)
        obtain r e where p: "process_items (result st) items = (r, e)"
          by (cases "process_items (result st) items")
        obtain r0 e0 where p0: "process_items [] items = (r0, e0)"
          by (cases "process_items [] items")
        have m: "map_of r = map_of (result st) ++ map_of r0" and e: "e = e0"
          using process_items_pair [OF p p0] by simp_all
        show ?thesis
          using Inr True Some items p p0 m e
          by (cases e0) (simp_all add: batch_result_def process_batch_def Let_def)
      qed
    qed
  qed
qed

lemma process_batch_failed:
  assumes "call_failed http k b"
  shows "result (process_batch http k st b) = result st"
    and "length (warnings (process_batch http k st b)) = Suc (length (warnings st))"
  using assms
  by (auto simp: call_failed_def process_batch_def Let_def resp_ok_def split: sum.splits)

lemma process_batch_result_cong:
  "result st = result st' \<Longrightarrow>
     result (process_batch http k st b) = result (process_batch http k st' b)"
  by (auto simp: process_batch_def Let_def split: sum.splits option.splits prod.splits)

lemma foldl_process_batch_cong:
  "result st = result st' \<Longrightarrow>
     result (foldl (process_batch http k) st bs) = result (foldl (process_batch http k) st' bs)"
proof (induction bs arbitrary: st st')
  case Nil
  then show ?case by simp
next
  case (Cons b bs)
  show ?case
    using Cons.IH [OF process_batch_result_cong [OF Cons.prems, of http k b]] by simp
qed

lemma foldl_process_batch_skips_failed:
  "result (foldl (process_batch http k) st bs)
     = result (foldl (process_batch http k) st (filter (\<lambda>b. \<not> call_failed http k b) bs))"
proof (induction bs arbitrary: st)
  case Nil
  show ?case by simp
next
  case (Cons b bs)
  show ?case
  proof (cases "call_failed http k b")
    case True
    have "result (foldl (process_batch http k) (process_batch http k st b) bs)
        = result (foldl (process_batch http k) st bs)"
      by (rule foldl_process_batch_cong) (rule process_batch_failed(1) [OF True])
    with True show ?thesis by (simp add: Cons.IH)
  next
    case False
    then show ?thesis by (simp add: Cons.IH)
  qed
qed

lemma foldl_process_batch_calls:
  "calls (foldl (process_batch http k) st bs) = calls st @ map (channels_request k) bs"
  by (induction bs arbitrary: st) (simp_all add: process_batch_calls)

lemma foldl_process_batch_warnings:
  "length (warnings st) \<le> length (warnings (foldl (process_batch http k) st bs))"
proof (induction bs arbitrary: st)
  case Nil
  show ?case by simp
next
  case (Cons b bs)
  have "length (warnings st) \<le> length (warnings (process_batch http k st b))"
    by (auto simp: process_batch_def Let_def split: sum.splits option.splits prod.splits)
  then show ?case using Cons.IH [of "process_batch http k st b"] by simp
qed

subsection \<open>Batches and the loop over them\<close>









lemma foldl_process_batch_result:
  "map_of (result (foldl (process_batch http k) st bs))
     = foldl (\<lambda>m b. m ++ map_of (batch_result http k b)) (map_of (result st)) bs"
  by (induction bs arbitrary: st) (simp_all add: process_batch_result_merge)

lemma foldl_process_batch_failed_warnings:
  "length (warnings st) + length (filter (call_failed http k) bs)
     \<le> length (warnings (foldl (process_batch http k) st bs))"
proof (induction bs arbitrary: st)
  case Nil
  show ?case by simp
next
  case (Cons b bs)
  have step: "length (warnings st) \<le> length (warnings (process_batch http k st b))"
    using foldl_process_batch_warnings [of st http k "[b]"] by simp
  show ?case
  proof (cases "call_failed http k b")
    case True
    from process_batch_failed(2) [OF True, of st] Cons.IH [of "process_batch http k st b"]
    show ?thesis using True by simp
  next
    case False
    with step Cons.IH [of "process_batch http k st b"] show ?thesis by simp
  qed
qed

lemma get_channel_subscribers_nonempty:
  "channel_ids \<noteq> [] \<Longrightarrow>
     get_channel_subscribers set_order http k channel_ids
       = foldl (process_batch http k) \<lparr>result = [], warnings = [], calls = []\<rparr>
           (batches (set_order (truthy_ids channel_ids)))"
  by (simp add: get_channel_subscribers_def Let_def)


subsection \<open>The claims about the batcher\<close>

lemmas batch_eval = process_batch_def process_item_def on_ok_def dict_set_def
  Let_def resp_ok_def error_data_def channels_request_def batch_result_def call_failed_def
  int_of_str_def py_strip_def is_py_space_def is_digit_def digits_value_def digit_val_def
  get_channel_subscribers_def truthy_ids_def List.map_filter_def batches_def lists_set_def

text \<open>
  Claim C4.  When no entry of the input is a non-empty string (in particular for the empty
  list), the batcher returns the empty map and sends no request.
\<close>

theorem no_truthy_ids_no_calls:
  "lists_set (set_order (truthy_ids channel_ids)) (truthy_ids channel_ids)
   \<and> set (truthy_ids channel_ids) = {} \<longrightarrow>
     get_channel_subscribers set_order http api_key channel_ids
       = \<lparr>result = [], warnings = [], calls = []\<rparr>
     \<and> result (get_channel_subscribers set_order http api_key channel_ids) = []
     \<and> calls (get_channel_subscribers set_order http api_key channel_ids) = []"
proof (intro impI)
  assume a: "lists_set (set_order (truthy_ids channel_ids)) (truthy_ids channel_ids)
   \<and> set (truthy_ids channel_ids) = {}"
  then have "set_order (truthy_ids channel_ids) = []"
    unfolding lists_set_def by (metis set_empty)
  then have "get_channel_subscribers set_order http api_key channel_ids
       = \<lparr>result = [], warnings = [], calls = []\<rparr>"
    by (simp add: get_channel_subscribers_def batches_def)
  then show "get_channel_subscribers set_order http api_key channel_ids
       = \<lparr>result = [], warnings = [], calls = []\<rparr>
     \<and> result (get_channel_subscribers set_order http api_key channel_ids) = []
     \<and> calls (get_channel_subscribers set_order http api_key channel_ids) = []"
    by simp
qed

theorem no_truthy_ids_no_calls_witness:
  "lists_set (remdups (truthy_ids [None, Some [], None, Some []])) (truthy_ids [None, Some [], None, Some []])
   \<and> set (truthy_ids [None, Some [], None, Some []]) = {}
   \<and> get_channel_subscribers remdups (\<lambda>_. Inl (RequestException ''unreachable'')) ''key''
         [None, Some [], None, Some []]
       = \<lparr>result = [], warnings = [], calls = []\<rparr>
   \<and> lists_set (remdups (truthy_ids [])) (truthy_ids [])
   \<and> get_channel_subscribers remdups (\<lambda>_. Inl (RequestException ''unreachable'')) ''key'' []
       = \<lparr>result = [], warnings = [], calls = []\<rparr>"
  using no_truthy_ids_no_calls [of remdups "[None, Some [], None, Some []]"
      "\<lambda>_. Inl (RequestException ''unreachable'')" "''key''"]
    no_truthy_ids_no_calls [of remdups "[]" "\<lambda>_. Inl (RequestException ''unreachable'')" "''key''"]
  by (simp add: lists_set_def truthy_ids_def List.map_filter_def)

text \<open>
  Claim C2 (as amended).  A batch whose call raises, or whose response has a status from
  400 to 599, adds one warning and leaves the accumulated map as it was; the loop goes on
  to the next batch.  Every batch merges its own entries into the map, so the keys stored
  before it stay.  The batcher as a whole is a total function: it calls every batch, logs
  at least one warning per failed batch, and returns the map that the batches that did not
  fail produce.  With three batches of which the second fails, the map is the merge of the
  entries of the first and of the third.
\<close>

theorem failed_batch_is_skipped:
  "(call_failed http k b \<longrightarrow>
      result (process_batch http k st b) = result st
      \<and> length (warnings (process_batch http k st b)) = Suc (length (warnings st))
      \<and> calls (process_batch http k st b) = calls st @ [channels_request k b])
   \<and> map_of (result (process_batch http k st b))
       = map_of (result st) ++ map_of (batch_result http k b)
   \<and> fst ` set (result st) \<subseteq> fst ` set (result (process_batch http k st b))
   \<and> (channel_ids \<noteq> [] \<longrightarrow>
        calls (get_channel_subscribers set_order http k channel_ids)
          = map (channels_request k) (batches (set_order (truthy_ids channel_ids)))
        \<and> result (get_channel_subscribers set_order http k channel_ids)
          = result (foldl (process_batch http k) \<lparr>result = [], warnings = [], calls = []\<rparr>
              (filter (\<lambda>b. \<not> call_failed http k b)
                 (batches (set_order (truthy_ids channel_ids)))))
        \<and> length (filter (call_failed http k) (batches (set_order (truthy_ids channel_ids))))
          \<le> length (warnings (get_channel_subscribers set_order http k channel_ids)))
   \<and> (call_failed http k second \<longrightarrow>
        map_of (result (foldl (process_batch http k)
                  \<lparr>result = [], warnings = [], calls = []\<rparr> [first, second, third]))
          = map_of (batch_result http k first) ++ map_of (batch_result http k third))"
proof (intro conjI impI)
  assume f: "call_failed http k b"
  show "result (process_batch http k st b) = result st"
    by (rule process_batch_failed(1) [OF f])
  show "length (warnings (process_batch http k st b)) = Suc (length (warnings st))"
    by (rule process_batch_failed(2) [OF f])
  show "calls (process_batch http k st b) = calls st @ [channels_request k b]"
    by (rule process_batch_calls)
next
  show m: "map_of (result (process_batch http k st b))
       = map_of (result st) ++ map_of (batch_result http k b)"
    by (rule process_batch_result_merge)
  have "dom (map_of (result st)) \<subseteq> dom (map_of (result (process_batch http k st b)))"
    unfolding m by simp
  then show "fst ` set (result st) \<subseteq> fst ` set (result (process_batch http k st b))"
    by (simp add: dom_map_of_conv_image_fst)
next
  assume ne: "channel_ids \<noteq> []"
  show "calls (get_channel_subscribers set_order http k channel_ids)
          = map (channels_request k) (batches (set_order (truthy_ids channel_ids)))"
    by (simp add: get_channel_subscribers_nonempty [OF ne] foldl_process_batch_calls)
  show "result (get_channel_subscribers set_order http k channel_ids)
          = result (foldl (process_batch http k) \<lparr>result = [], warnings = [], calls = []\<rparr>
              (filter (\<lambda>b. \<not> call_failed http k b)
                 (batches (set_order (truthy_ids channel_ids)))))"
    unfolding get_channel_subscribers_nonempty [OF ne]
    by (rule foldl_process_batch_skips_failed)
  show "length (filter (call_failed http k) (batches (set_order (truthy_ids channel_ids))))
          \<le> length (warnings (get_channel_subscribers set_order http k channel_ids))"
    unfolding get_channel_subscribers_nonempty [OF ne]
    using foldl_process_batch_failed_warnings
      [of "\<lparr>result = [], warnings = [], calls = []\<rparr>" http k
          "batches (set_order (truthy_ids channel_ids))"]
    by simp
next
  assume f: "call_failed http k second"
  have e: "map_of (batch_result http k second) = Map.empty"
    using process_batch_failed(1) [OF f, of "\<lparr>result = [], warnings = [], calls = []\<rparr>"]
    by (simp add: batch_result_def)
  have "map_of (result (foldl (process_batch http k)
                  \<lparr>result = [], warnings = [], calls = []\<rparr> [first, second, third]))
      = foldl (\<lambda>m b. m ++ map_of (batch_result http k b))
          (map_of (result \<lparr>result = [], warnings = [], calls = []\<rparr>)) [first, second, third]"
    by (rule foldl_process_batch_result)
  also have "\<dots> = map_of (batch_result http k first) ++ map_of (batch_result http k third)"
    by (simp add: e)
  finally show "map_of (result (foldl (process_batch http k)
                  \<lparr>result = [], warnings = [], calls = []\<rparr> [first, second, third]))
          = map_of (batch_result http k first) ++ map_of (batch_result http k third)" .
qed

theorem failed_batch_is_skipped_witness:
  "call_failed
     (\<lambda>req. if map_of (req_params req) ''id'' = Some ''b'' then
              Inr \<lparr>status_code = 500, resp_text = ''oops'', resp_json = None\<rparr>
            else Inr \<lparr>status_code = 200, resp_text = [],
                      resp_json = Some (JObj [(''items'', JArr [JObj [
                        (''id'', case map_of (req_params req) ''id'' of Some s \<Rightarrow> JStr s | None \<Rightarrow> JNull),
                        (''statistics'', JObj [(''subscriberCount'', JStr ''7'')])]])])\<rparr>)
     ''key'' [''b'']
   \<and> result (foldl (process_batch
         (\<lambda>req. if map_of (req_params req) ''id'' = Some ''b'' then
              Inr \<lparr>status_code = 500, resp_text = ''oops'', resp_json = None\<rparr>
            else Inr \<lparr>status_code = 200, resp_text = [],
                      resp_json = Some (JObj [(''items'', JArr [JObj [
                        (''id'', case map_of (req_params req) ''id'' of Some s \<Rightarrow> JStr s | None \<Rightarrow> JNull),
                        (''statistics'', JObj [(''subscriberCount'', JStr ''7'')])]])])\<rparr>)
         ''key'') \<lparr>result = [], warnings = [], calls = []\<rparr> [[''a''], [''b''], [''c'']])
       = [(JStr ''a'', 7), (JStr ''c'', 7)]
   \<and> warnings (foldl (process_batch
         (\<lambda>req. if map_of (req_params req) ''id'' = Some ''b'' then
              Inr \<lparr>status_code = 500, resp_text = ''oops'', resp_json = None\<rparr>
            else Inr \<lparr>status_code = 200, resp_text = [],
                      resp_json = Some (JObj [(''items'', JArr [JObj [
                        (''id'', case map_of (req_params req) ''id'' of Some s \<Rightarrow> JStr s | None \<Rightarrow> JNull),
                        (''statistics'', JObj [(''subscriberCount'', JStr ''7'')])]])])\<rparr>)
         ''key'') \<lparr>result = [], warnings = [], calls = []\<rparr> [[''a''], [''b''], [''c'']])
       = [HttpWarning 500 (JObj [(''error'', JObj [(''message'', JStr ''oops'')])])]
   \<and> [Some ''b'', None, Some ''b''] \<noteq> []
   \<and> get_channel_subscribers remdups
         (\<lambda>req. if map_of (req_params req) ''id'' = Some ''b'' then
              Inr \<lparr>status_code = 500, resp_text = ''oops'', resp_json = None\<rparr>
            else Inr \<lparr>status_code = 200, resp_text = [],
                      resp_json = Some (JObj [(''items'', JArr [JObj [
                        (''id'', case map_of (req_params req) ''id'' of Some s \<Rightarrow> JStr s | None \<Rightarrow> JNull),
                        (''statistics'', JObj [(''subscriberCount'', JStr ''7'')])]])])\<rparr>)
         ''key'' [Some ''b'', None, Some ''b'']
       = \<lparr>result = [],
          warnings = [HttpWarning 500 (JObj [(''error'', JObj [(''message'', JStr ''oops'')])])],
          calls = [channels_request ''key'' [''b'']]\<rparr>"
  using failed_batch_is_skipped [where k = "''key''" and b = "[''b'']"
      and first = "[''a'']" and second = "[''b'']" and third = "[''c'']"
      and st = "\<lparr>result = [], warnings = [], calls = []\<rparr>"
      and channel_ids = "[Some ''b'', None, Some ''b'']" and set_order = remdups
      and http = "\<lambda>req. if map_of (req_params req) ''id'' = Some ''b'' then
              Inr \<lparr>status_code = 500, resp_text = ''oops'', resp_json = None\<rparr>
            else Inr \<lparr>status_code = 200, resp_text = [],
                      resp_json = Some (JObj [(''items'', JArr [JObj [
                        (''id'', case map_of (req_params req) ''id'' of Some s \<Rightarrow> JStr s | None \<Rightarrow> JNull),
                        (''statistics'', JObj [(''subscriberCount'', JStr ''7'')])]])])\<rparr>"]
  by (simp add: batch_eval)

text \<open>
  The claim as stated speaks of every non-2xx response.  A response with status 304 is not
  2xx, yet \<open>ok\<close> holds for it: its records are stored and no warning is logged.
\<close>

theorem non_2xx_batch_without_warning:
  "\<not> (200 \<le> status_code \<lparr>status_code = 304, resp_text = [],
          resp_json = Some (JObj [(''items'', JArr [JObj [(''id'', JStr ''UC1''),
             (''statistics'', JObj [(''subscriberCount'', JStr ''5'')])]])])\<rparr>
       \<and> status_code \<lparr>status_code = 304, resp_text = [],
          resp_json = Some (JObj [(''items'', JArr [JObj [(''id'', JStr ''UC1''),
             (''statistics'', JObj [(''subscriberCount'', JStr ''5'')])]])])\<rparr> < 300)
   \<and> process_batch
        (\<lambda>_. Inr \<lparr>status_code = 304, resp_text = [],
          resp_json = Some (JObj [(''items'', JArr [JObj [(''id'', JStr ''UC1''),
             (''statistics'', JObj [(''subscriberCount'', JStr ''5'')])]])])\<rparr>)
        ''key'' \<lparr>result = [], warnings = [], calls = []\<rparr> [''UC1'']
     = \<lparr>result = [(JStr ''UC1'', 5)], warnings = [],
        calls = [channels_request ''key'' [''UC1'']]\<rparr>"
  by (simp add: batch_eval)



section \<open>Properties of row rendering\<close>

lemma on_ok_Inr: "on_ok r f = Inr y \<longleftrightarrow> (\<exists>x. r = Inr x \<and> f x = Inr y)"
  by (cases r) (simp_all add: on_ok_def)

lemma get_first_obj:
  "get_first (JObj ths) ks
     = Inr (case List.find truthy (map (\<lambda>k. case map_of ths k of Some v \<Rightarrow> v | None \<Rightarrow> JNull) ks) of
              Some e \<Rightarrow> e | None \<Rightarrow> JObj [])"
  by (induction ks) (simp_all add: on_ok_def)

lemma py_get_url:
  "py_get e ''url'' JNull = Inr u \<Longrightarrow>
     (if truthy u then Image u else NoThumbnail)
       = (case usable_url e of Some u \<Rightarrow> Image u | None \<Rightarrow> NoThumbnail)"
  by (cases e) (auto split: option.splits)

lemma on_okE:
  assumes "on_ok r f = Inr y"
  obtains x where "r = Inr x" and "f x = Inr y"
  using assms by (cases r) (simp_all add: on_ok_def)

lemma render_rowE:
  assumes "render_row rp subs_map i item = Inr row"
  obtains snippet stats title channel channel_id thumbs thumb_e thumb_url views likes comments
    subs video_id views_text likes_part comments_part subs_part
  where "py_get item ''snippet'' (JObj []) = Inr snippet"
    and "py_get item ''statistics'' (JObj []) = Inr stats"
    and "py_get snippet ''title'' (JStr no_title) = Inr title"
    and "py_get snippet ''channelTitle'' (JStr no_channel) = Inr channel"
    and "py_get snippet ''channelId'' JNull = Inr channel_id"
    and "py_get snippet ''thumbnails'' (JObj []) = Inr thumbs"
    and "get_first thumbs [''medium'', ''high'', ''standard'', ''default''] = Inr thumb_e"
    and "py_get thumb_e ''url'' JNull = Inr thumb_url"
    and "py_get stats ''viewCount'' (JStr ''0'') = Inr views"
    and "py_get stats ''likeCount'' JNull = Inr likes"
    and "py_get stats ''commentCount'' JNull = Inr comments"
    and "dict_get subs_map channel_id = Inr subs"
    and "py_get item ''id'' JNull = Inr video_id"
    and "format_views rp views = Inr views_text"
    and "metric_part rp thumbs_up [] likes = Inr likes_part"
    and "metric_part rp speech [] comments = Inr comments_part"
    and "metric_part rp bust myeong (case subs of None \<Rightarrow> JNull | Some n \<Rightarrow> JNum n) = Inr subs_part"
    and "thumb row = (if truthy thumb_url then Image thumb_url else NoThumbnail)"
    and "parts row = [py_str rp channel, eye @ '' '' @ views_text]
           @ likes_part @ comments_part @ subs_part"
proof -
  from assms show ?thesis
    unfolding render_row_def
    apply (elim on_okE)
    apply (rule that)
                      apply assumption+
     apply (auto simp: Let_def)
    done
qed

lemma find_map_filter_usable:
  "list_all (\<lambda>e. truthy e \<longrightarrow> usable_url e \<noteq> None) es \<Longrightarrow>
     (case List.find truthy es of None \<Rightarrow> None | Some e \<Rightarrow> usable_url e)
       = (case List.map_filter usable_url es of [] \<Rightarrow> None | u # _ \<Rightarrow> Some u)"
proof (induction es)
  case Nil
  show ?case by (simp add: List.map_filter_simps)
next
  case (Cons e es)
  have nt: "usable_url e = None" if "\<not> truthy e"
    using that by (cases e) (auto split: option.splits)
  show ?case
  proof (cases "truthy e")
    case True
    with Cons.prems obtain u where "usable_url e = Some u" by auto
    with True show ?thesis by (simp add: List.map_filter_simps)
  next
    case False
    with Cons nt show ?thesis by (simp add: List.map_filter_simps)
  qed
qed


lemmas render_eval = render_row_def on_ok_def dict_get_def metric_part_def format_views_def
  int_of_str_def py_strip_def is_py_space_def is_digit_def digits_value_def digit_val_def
  format_comma_def show_nat.simps digit_char_def Let_def size_entries_def
  spec_first_available_def List.map_filter_simps

text \<open>
  Claim C9 (as amended).  The thumbnail shown comes from the first size among medium, high,
  standard, default whose entry is present (truthy): its URL when it carries a usable one,
  the placeholder notice otherwise, and the notice too when no size is present.  When
  every present entry carries a usable URL, this is the first available URL in the
  specification's sense.
\<close>

theorem thumbnail_of_first_present_size:
  assumes "render_row rp subs_map i item = Inr row"
    and "py_get item ''snippet'' (JObj []) = Inr snippet"
    and "py_get snippet ''thumbnails'' (JObj []) = Inr (JObj ths)"
  shows "thumb row
      = (case List.find truthy (size_entries ths) of
           None \<Rightarrow> NoThumbnail
         | Some e \<Rightarrow> (case usable_url e of Some u \<Rightarrow> Image u | None \<Rightarrow> NoThumbnail))
    \<and> (list_all (\<lambda>e. truthy e \<longrightarrow> usable_url e \<noteq> None) (size_entries ths) \<longrightarrow>
         thumb row = (case spec_first_available ths of Some u \<Rightarrow> Image u | None \<Rightarrow> NoThumbnail))"
proof -
  from assms(1) obtain snippet' thumbs thumb_e thumb_url
    where sn: "py_get item ''snippet'' (JObj []) = Inr snippet'"
      and th: "py_get snippet' ''thumbnails'' (JObj []) = Inr thumbs"
      and gf: "get_first thumbs [''medium'', ''high'', ''standard'', ''default''] = Inr thumb_e"
      and url: "py_get thumb_e ''url'' JNull = Inr thumb_url"
      and t: "thumb row = (if truthy thumb_url then Image thumb_url else NoThumbnail)"
    by (rule render_rowE)
  from sn assms(2) have "snippet' = snippet" by simp
  with th assms(3) have thumbs: "thumbs = JObj ths" by simp
  have e: "thumb_e = (case List.find truthy (size_entries ths) of Some e \<Rightarrow> e | None \<Rightarrow> JObj [])"
    using gf unfolding thumbs get_first_obj size_entries_def by (simp only: sum.inject)
  have 1: "thumb row
      = (case List.find truthy (size_entries ths) of
           None \<Rightarrow> NoThumbnail
         | Some e \<Rightarrow> (case usable_url e of Some u \<Rightarrow> Image u | None \<Rightarrow> NoThumbnail))"
    unfolding t py_get_url [OF url] e by (simp split: option.splits)
  have 2: "thumb row = (case spec_first_available ths of Some u \<Rightarrow> Image u | None \<Rightarrow> NoThumbnail)"
    if "list_all (\<lambda>e. truthy e \<longrightarrow> usable_url e \<noteq> None) (size_entries ths)"
    unfolding 1 spec_first_available_def find_map_filter_usable [OF that, symmetric]
    by (simp split: option.splits)
  from 1 2 show ?thesis by blast
qed


theorem thumbnail_of_first_present_size_witness:
  "render_row (\<lambda>_. []) [] 1
      (JObj [(''id'', JStr ''v1''),
        (''snippet'', JObj [(''title'', JStr ''T''), (''channelTitle'', JStr ''Ch''),
           (''thumbnails'', JObj [(''high'', JObj [(''url'', JStr ''h.jpg'')]),
                                  (''default'', JObj [(''url'', JStr ''d.jpg'')])])])])
     = Inr \<lparr>thumb = Image (JStr ''h.jpg''),
        title_md = ''**1. [T](https://www.youtube.com/watch?v=v1)**'',
        parts = [''Ch'', eye @ '' 0''],
        compact_line = ''Ch'' @ middot @ eye @ '' 0''\<rparr>
   \<and> py_get (JObj [(''id'', JStr ''v1''),
        (''snippet'', JObj [(''title'', JStr ''T''), (''channelTitle'', JStr ''Ch''),
           (''thumbnails'', JObj [(''high'', JObj [(''url'', JStr ''h.jpg'')]),
                                  (''default'', JObj [(''url'', JStr ''d.jpg'')])])])]) ''snippet'' (JObj [])
     = Inr (JObj [(''title'', JStr ''T''), (''channelTitle'', JStr ''Ch''),
           (''thumbnails'', JObj [(''high'', JObj [(''url'', JStr ''h.jpg'')]),
                                  (''default'', JObj [(''url'', JStr ''d.jpg'')])])])
   \<and> py_get (JObj [(''title'', JStr ''T''), (''channelTitle'', JStr ''Ch''),
           (''thumbnails'', JObj [(''high'', JObj [(''url'', JStr ''h.jpg'')]),
                                  (''default'', JObj [(''url'', JStr ''d.jpg'')])])]) ''thumbnails'' (JObj [])
     = Inr (JObj [(''high'', JObj [(''url'', JStr ''h.jpg'')]), (''default'', JObj [(''url'', JStr ''d.jpg'')])])
   \<and> list_all (\<lambda>e. truthy e \<longrightarrow> usable_url e \<noteq> None) (size_entries [(''high'', JObj [(''url'', JStr ''h.jpg'')]), (''default'', JObj [(''url'', JStr ''d.jpg'')])])
   \<and> spec_first_available [(''high'', JObj [(''url'', JStr ''h.jpg'')]), (''default'', JObj [(''url'', JStr ''d.jpg'')])] = Some (JStr ''h.jpg'')"
proof -
  have r: "render_row (\<lambda>_. []) [] 1
      (JObj [(''id'', JStr ''v1''),
        (''snippet'', JObj [(''title'', JStr ''T''), (''channelTitle'', JStr ''Ch''),
           (''thumbnails'', JObj [(''high'', JObj [(''url'', JStr ''h.jpg'')]),
                                  (''default'', JObj [(''url'', JStr ''d.jpg'')])])])])
     = Inr \<lparr>thumb = Image (JStr ''h.jpg''),
        title_md = ''**1. [T](https://www.youtube.com/watch?v=v1)**'',
        parts = [''Ch'', eye @ '' 0''],
        compact_line = ''Ch'' @ middot @ eye @ '' 0''\<rparr>"
    by (simp add: render_eval)
  have s: "py_get (JObj [(''id'', JStr ''v1''),
        (''snippet'', JObj [(''title'', JStr ''T''), (''channelTitle'', JStr ''Ch''),
           (''thumbnails'', JObj [(''high'', JObj [(''url'', JStr ''h.jpg'')]),
                                  (''default'', JObj [(''url'', JStr ''d.jpg'')])])])]) ''snippet'' (JObj [])
     = Inr (JObj [(''title'', JStr ''T''), (''channelTitle'', JStr ''Ch''),
           (''thumbnails'', JObj [(''high'', JObj [(''url'', JStr ''h.jpg'')]),
                                  (''default'', JObj [(''url'', JStr ''d.jpg'')])])])"
    by simp
  have t: "py_get (JObj [(''title'', JStr ''T''), (''channelTitle'', JStr ''Ch''),
           (''thumbnails'', JObj [(''high'', JObj [(''url'', JStr ''h.jpg'')]),
                                  (''default'', JObj [(''url'', JStr ''d.jpg'')])])]) ''thumbnails'' (JObj [])
     = Inr (JObj [(''high'', JObj [(''url'', JStr ''h.jpg'')]), (''default'', JObj [(''url'', JStr ''d.jpg'')])])"
    by simp
  from thumbnail_of_first_present_size [OF r s t] r s t show ?thesis
    by (simp add: render_eval)
qed

text \<open>
  The claim as stated also covers an entry that is present without a usable URL.  There
  the code stops at that entry and shows the notice, although a later size has a URL.
\<close>

theorem thumbnail_skips_url_of_later_size:
  "render_row (\<lambda>_. []) [] 1
      (JObj [(''id'', JStr ''v1''),
        (''snippet'', JObj [(''title'', JStr ''T''), (''channelTitle'', JStr ''Ch''),
           (''thumbnails'', JObj [(''medium'', JObj [(''width'', JNum 320)]),
                                  (''high'', JObj [(''url'', JStr ''h.jpg'')])])])])
     = Inr \<lparr>thumb = NoThumbnail,
        title_md = ''**1. [T](https://www.youtube.com/watch?v=v1)**'',
        parts = [''Ch'', eye @ '' 0''],
        compact_line = ''Ch'' @ middot @ eye @ '' 0''\<rparr>
   \<and> spec_first_available [(''medium'', JObj [(''width'', JNum 320)]), (''high'', JObj [(''url'', JStr ''h.jpg'')])] = Some (JStr ''h.jpg'')"
  by (simp add: render_eval)






end
